theory Spec2Isabelle
  imports Complex_Main "HOL-Library.Word" "HOL-Library.AList"
begin

section \<open>JavaScript values\<close>

text \<open>
  A JavaScript \<^verbatim>\<open>number\<close> is \<open>NaN\<close>, an infinity or a value. No claim depends on
  rounding, so values are reals. \<open>undefined\<close> is \<open>None\<close> of an option type throughout.
\<close>

datatype js_number = NaN | PosInfinity | NegInfinity | Num real

type_synonym byte = "8 word"

type_synonym ArrayBuffer = "byte list"

text \<open>
  The values a property list holds (\<^verbatim>\<open>PlistValue\<close> of the \<^verbatim>\<open>plist\<close> package): strings,
  numbers, booleans, dates, byte buffers, arrays and objects. An object keeps its entries
  as an association list.
\<close>

datatype plist_value =
    PString string
  | PNumber js_number
  | PBoolean bool
  | PDate real
  | PData "byte list"
  | PArray "plist_value list"
  | PObject "(string \<times> plist_value) list"

text \<open>
  Reading a property: an object answers from its entries; on every other value the
  properties read here (\<^verbatim>\<open>DeviceID\<close>, \<^verbatim>\<open>DeviceList\<close>, ...) are \<open>undefined\<close>.
\<close>

fun property :: "plist_value \<Rightarrow> string \<Rightarrow> plist_value option" where
  "property (PObject kvs) k = map_of kvs k"
| "property _ k = None"

subsection \<open>The type guards of \<^verbatim>\<open>private/type_guard\<close>\<close>

text \<open>\<^verbatim>\<open>isNumber(x)\<close>: \<^verbatim>\<open>x !== null && typeof x === "number" && !isNaN(x)\<close>.\<close>

fun isNumber :: "plist_value option \<Rightarrow> bool" where
  "isNumber (Some (PNumber n)) = (n \<noteq> NaN)"
| "isNumber _ = False"

text \<open>\<^verbatim>\<open>isString(x)\<close>: \<^verbatim>\<open>typeof x === "string"\<close>.\<close>

fun isString :: "plist_value option \<Rightarrow> bool" where
  "isString (Some (PString s)) = True"
| "isString _ = False"

text \<open>\<^verbatim>\<open>x instanceof Uint8Array\<close>: the byte buffers of a property list.\<close>

fun instanceof_Uint8Array :: "plist_value option \<Rightarrow> bool" where
  "instanceof_Uint8Array (Some (PData bs)) = True"
| "instanceof_Uint8Array _ = False"

text \<open>
  TypeScript's \<^verbatim>\<open>x as T\<close> is erased at run time. The three readers below give the
  value behind a cast; each is applied only after the guard for its type has passed.
\<close>

fun as_number :: "plist_value option \<Rightarrow> js_number" where
  "as_number (Some (PNumber n)) = n"
| "as_number _ = NaN"

fun as_string :: "plist_value option \<Rightarrow> string" where
  "as_string (Some (PString s)) = s"
| "as_string _ = []"

fun as_Uint8Array :: "plist_value option \<Rightarrow> byte list" where
  "as_Uint8Array (Some (PData bs)) = bs"
| "as_Uint8Array _ = []"

section \<open>Protocol constants (\<^verbatim>\<open>usbmuxd_proto\<close>)\<close>

datatype usbmuxd_result =
    RESULT_OK | RESULT_BADCOMMAND | RESULT_BADDEV | RESULT_CONNREFUSED | RESULT_BADVERSION

fun result_code :: "usbmuxd_result \<Rightarrow> nat" where
  "result_code RESULT_OK = 0"
| "result_code RESULT_BADCOMMAND = 1"
| "result_code RESULT_BADDEV = 2"
| "result_code RESULT_CONNREFUSED = 3"
| "result_code RESULT_BADVERSION = 6"

datatype usbmuxd_msgtype =
    MESSAGE_RESULT | MESSAGE_CONNECT | MESSAGE_LISTEN | MESSAGE_DEVICE_ADD
  | MESSAGE_DEVICE_REMOVE | MESSAGE_DEVICE_PAIRED | MESSAGE_PLIST

fun msgtype_code :: "usbmuxd_msgtype \<Rightarrow> nat" where
  "msgtype_code MESSAGE_RESULT = 1"
| "msgtype_code MESSAGE_CONNECT = 2"
| "msgtype_code MESSAGE_LISTEN = 3"
| "msgtype_code MESSAGE_DEVICE_ADD = 4"
| "msgtype_code MESSAGE_DEVICE_REMOVE = 5"
| "msgtype_code MESSAGE_DEVICE_PAIRED = 6"
| "msgtype_code MESSAGE_PLIST = 8"

record usbmuxd_header =
  length_h :: nat
  version :: nat
  message :: nat
  tag :: nat

text \<open>
  Modelled from the spec: the module \<^verbatim>\<open>usbmuxd_errno\<close> that declares \<^verbatim>\<open>UsbmuxdErrno\<close> is
  not among the sources. The spec calls the error codes a POSIX-style errno taxonomy, so
  the three members the code uses carry their POSIX numbers.
\<close>

datatype UsbmuxdErrno = EPERM | ENOENT | EINVAL

fun errno_value :: "UsbmuxdErrno \<Rightarrow> real" where
  "errno_value EPERM = 1"
| "errno_value ENOENT = 2"
| "errno_value EINVAL = 22"

section \<open>Devices and events\<close>

datatype usbmux_connection_type = CONNECTION_TYPE_USB | CONNECTION_TYPE_NETWORK

record usbmuxd_device_info_t =
  handle :: js_number
  product_id :: js_number
  udid :: string
  conn_type :: usbmux_connection_type
  conn_data :: "byte list"

datatype usbmuxd_event_type = UE_DEVICE_ADD | UE_DEVICE_REMOVE | UE_DEVICE_PAIRED

record usbmuxd_event_t =
  event :: usbmuxd_event_type
  device :: usbmuxd_device_info_t

subsection \<open>\<^verbatim>\<open>device_info_from_plist\<close>\<close>

definition device_info_from_plist :: "plist_value \<Rightarrow> usbmuxd_device_info_t option" where
  "device_info_from_plist props =
    (let DeviceID = property props ''DeviceID'';
         ProductID = property props ''ProductID'';
         SerialNumber = property props ''SerialNumber'';
         ConnectionType = property props ''ConnectionType'';
         NetworkAddress = property props ''NetworkAddress'';
         success = True;
         success = (if \<not> isNumber DeviceID then False else success);
         success = (if \<not> isNumber ProductID then False else success);
         success = (if \<not> isString SerialNumber then False else success);
         success = (if ConnectionType \<noteq> Some (PString ''USB'')
                       \<and> ConnectionType \<noteq> Some (PString ''Network'')
                    then False else success);
         success = (if ConnectionType = Some (PString ''Network'')
                       \<and> \<not> instanceof_Uint8Array NetworkAddress
                    then False else success)
     in if \<not> success then None
        else Some \<lparr> handle = as_number DeviceID,
                    product_id = as_number ProductID,
                    udid = as_string SerialNumber,
                    conn_type = (if ConnectionType = Some (PString ''Network'')
                                 then CONNECTION_TYPE_NETWORK else CONNECTION_TYPE_USB),
                    conn_data = (if ConnectionType = Some (PString ''Network'')
                                 then as_Uint8Array NetworkAddress else []) \<rparr>)"

section \<open>Module state and the subscription registry\<close>

text \<open>
  A callback is code of the caller: it is known by its identity, and each invocation is
  recorded with the arguments it receives. A subscription handle is a fresh object
  \<^verbatim>\<open>{}\<close>, known by its identity too; \<open>next_object\<close> counts the objects allocated so
  far, so that a new object differs from every earlier one.
\<close>

type_synonym usbmuxd_event_cb_t = nat

type_synonym usbmuxd_subscription_context_t = nat

record usbmuxd_subscription_context =
  callback :: usbmuxd_event_cb_t
  user_data :: ArrayBuffer

record callback_call =
  called :: usbmuxd_event_cb_t
  with_event :: usbmuxd_event_t
  with_user_data :: "ArrayBuffer option"

text \<open>
  The module variables \<^verbatim>\<open>_watching\<close>, \<^verbatim>\<open>_use_tag\<close>, \<^verbatim>\<open>_proto_version\<close>,
  \<^verbatim>\<open>_listener_map\<close> and \<^verbatim>\<open>_devices\<close>. The \<^verbatim>\<open>Map\<close> keeps insertion order: it is
  an association list, \<open>AList.update\<close> is \<^verbatim>\<open>set\<close> and \<open>AList.delete\<close> is \<^verbatim>\<open>delete\<close>.
\<close>

record usbmuxd_state =
  watching :: bool
  use_tag :: nat
  proto_version :: nat
  listener_map :: "(usbmuxd_subscription_context_t \<times> usbmuxd_subscription_context) list"
  devices :: "usbmuxd_device_info_t list"
  next_object :: nat

definition initial_state :: usbmuxd_state where
  "initial_state = \<lparr> watching = False, use_tag = 0, proto_version = 1,
                     listener_map = [], devices = [], next_object = 0 \<rparr>"

text \<open>
  \<^verbatim>\<open>usbmuxd_events_subscribe\<close> returns \<^verbatim>\<open>usbmuxd_subscription_context_t | number\<close>:
  \<open>Inr\<close> a handle, \<open>Inl\<close> a number. The second component lists the callback invocations
  made during the call, in order.
\<close>

definition usbmuxd_events_subscribe ::
  "usbmuxd_event_cb_t \<Rightarrow> ArrayBuffer \<Rightarrow> usbmuxd_state
     \<Rightarrow> (js_number + usbmuxd_subscription_context_t) \<times> callback_call list \<times> usbmuxd_state" where
  "usbmuxd_events_subscribe cb ud s =
    (let context = \<lparr> callback = cb, user_data = ud \<rparr>;
         context_handle = next_object s;
         s1 = s\<lparr> next_object := Suc (next_object s),
                 listener_map := AList.update context_handle context (listener_map s) \<rparr>
     in if \<not> watching s1 then (Inr context_handle, [], s1)
        else (Inr context_handle,
              map (\<lambda>d. \<lparr> called = callback context,
                         with_event = \<lparr> event = UE_DEVICE_ADD, device = d \<rparr>,
                         with_user_data = Some (user_data context) \<rparr>) (devices s1),
              s1))"

text \<open>
  \<^verbatim>\<open>usbmuxd_events_unsubscribe\<close>. The callback's second argument is
  \<^verbatim>\<open>context.user_data\<close>, read from the handle object, which has no such property:
  \<open>undefined\<close>.
\<close>

definition usbmuxd_events_unsubscribe ::
  "usbmuxd_subscription_context_t \<Rightarrow> usbmuxd_state
     \<Rightarrow> js_number \<times> callback_call list \<times> usbmuxd_state" where
  "usbmuxd_events_unsubscribe context s =
    (case map_of (listener_map s) context of
       None \<Rightarrow> (Num (- errno_value EINVAL), [], s)
     | Some registered_context \<Rightarrow>
         (Num 0,
          map (\<lambda>d. \<lparr> called = callback registered_context,
                     with_event = \<lparr> event = UE_DEVICE_REMOVE, device = d \<rparr>,
                     with_user_data = None \<rparr>) (devices s),
          s\<lparr> listener_map := AList.delete context (listener_map s) \<rparr>))"

section \<open>The transport, seen from \<^verbatim>\<open>usbmuxd_get_device_list\<close>\<close>

text \<open>\<^verbatim>\<open>isNumber\<close> on a value whose static type is already \<^verbatim>\<open>number\<close>.\<close>

definition isNumber_num :: "js_number \<Rightarrow> bool" where
  "isNumber_num n = (n \<noteq> NaN)"

text \<open>
  The promise that \<^verbatim>\<open>usbmuxd_get_device_list\<close> returns is either resolved with a
  value or stays pending for ever: because an awaited transport call never completes,
  because an exception leaves \<^verbatim>\<open>connect_and_list_devices\<close> before it calls
  \<^verbatim>\<open>resolve\<close>, or because the function returns without calling it.
\<close>

datatype 'a promise = Resolved 'a | Pending

text \<open>
  What the daemon does on one connection. \<^verbatim>\<open>connect_usbmuxd_socket\<close> resolves with a
  socket on \<^verbatim>\<open>connect\<close> and with \<^verbatim>\<open>-ENOENT\<close> on \<^verbatim>\<open>error\<close>;
  \<^verbatim>\<open>socket_list_devices\<close> resolves with \<^verbatim>\<open>PlistObject | number\<close>, \<^verbatim>\<open>socket_listen\<close> with
  \<^verbatim>\<open>void | number\<close>, and each \<^verbatim>\<open>socket_receive_data\<close> with
  \<^verbatim>\<open>[usbmuxd_header, ArrayBuffer] | number\<close>. The bodies that would compute these values
  from the bytes on the socket are not written in the source (\<^verbatim>\<open>socket_receive_data\<close>
  and \<^verbatim>\<open>device_info_from_data\<close> are placeholders, \<^verbatim>\<open>socket_send_data\<close> leaves the
  shape of its answer open), so the values are inputs, of the declared types.
  \<open>LD_undefined\<close> is the value that \<^verbatim>\<open>socket_send_data\<close> resolves with once the
  socket emits \<^verbatim>\<open>data\<close> (\<^verbatim>\<open>resolve()\<close>), handed on by \<^verbatim>\<open>socket_send_plist\<close>.
  \<open>on_receive\<close> lists the results of the successive calls of \<^verbatim>\<open>socket_receive_data\<close>
  on the connection; after the last one no further call completes.
\<close>

datatype connect_result = SocketConnected | SocketError

datatype list_devices_result =
    LD_plist "(string \<times> plist_value) list"
  | LD_number js_number
  | LD_undefined

datatype receive_result = RD_frame usbmuxd_header ArrayBuffer | RD_number js_number

record daemon_session =
  on_connect :: connect_result
  on_list_devices :: list_devices_result
  on_listen :: "js_number option"
  on_receive :: "receive_result list"

text \<open>
  The calls made on the transport, in order: the tag and the value of
  \<^verbatim>\<open>_proto_version\<close> at a request, the timeout of a receive.
\<close>

datatype transport_action =
    Connect
  | ListDevices nat nat
  | Listen nat nat
  | Receive nat
  | Destroy

text \<open>
  \<^verbatim>\<open>new DataView(buf).getUint32(off)\<close>: big-endian; a \<^verbatim>\<open>RangeError\<close> (\<open>None\<close>) when
  four bytes are not there.
\<close>

definition getUint32 :: "byte list \<Rightarrow> nat \<Rightarrow> nat option" where
  "getUint32 buf off =
    (if off + 4 \<le> length buf
     then Some (unat (buf ! off) * 2 ^ 24 + unat (buf ! (off + 1)) * 2 ^ 16
                + unat (buf ! (off + 2)) * 2 ^ 8 + unat (buf ! (off + 3)))
     else None)"

text \<open>The loop over \<^verbatim>\<open>plist_devlist\<close>: the first record that gives no device ends it.\<close>

fun push_device_infos ::
  "plist_value list \<Rightarrow> usbmuxd_device_info_t list \<Rightarrow> usbmuxd_device_info_t list option" where
  "push_device_infos [] device_list = Some device_list"
| "push_device_infos (plistdev # rest) device_list =
    (case device_info_from_plist plistdev of
       None \<Rightarrow> None
     | Some device_info \<Rightarrow> push_device_infos rest (device_list @ [device_info]))"

text \<open>
  The loop of the \<^verbatim>\<open>MESSAGE_DEVICE_REMOVE\<close> branch:
  \<^verbatim>\<open>device_list.splice(i, 1); break\<close> at the first device with the handle.
\<close>

fun splice_handle ::
  "js_number \<Rightarrow> usbmuxd_device_info_t list \<Rightarrow> usbmuxd_device_info_t list" where
  "splice_handle h [] = []"
| "splice_handle h (d # ds) = (if handle d = h then ds else d # splice_handle h ds)"

type_synonym listing = "(js_number + usbmuxd_device_info_t list) promise"

text \<open>
  \<^verbatim>\<open>recursively_get_device_list\<close>, as written: one call of
  \<^verbatim>\<open>socket_receive_data(sfd, 100)\<close> and no call of itself. \<open>dfd\<close> stands for
  \<^verbatim>\<open>device_info_from_data\<close>. A number ends the listing; a frame is handled and the
  function returns, the promise unresolved. The \<^verbatim>\<open>MESSAGE_DEVICE_ADD\<close> branch pushes onto
  \<^verbatim>\<open>_devices\<close>, the \<^verbatim>\<open>MESSAGE_DEVICE_REMOVE\<close> branch splices the local
  \<^verbatim>\<open>device_list\<close>, which nothing reads afterwards.
\<close>

definition recursively_get_device_list ::
  "(ArrayBuffer \<Rightarrow> usbmuxd_device_info_t option) \<Rightarrow> receive_result list
     \<Rightarrow> usbmuxd_device_info_t list \<Rightarrow> usbmuxd_state
     \<Rightarrow> listing \<times> transport_action list \<times> usbmuxd_state" where
  "recursively_get_device_list dfd results device_list s =
    (case results of
       [] \<Rightarrow> (Pending, [Receive 100], s)
     | RD_number n # _ \<Rightarrow>
         if isNumber_num n
         then (Resolved (Inr device_list), [Receive 100, Destroy], s\<lparr> devices := device_list \<rparr>)
         else (Pending, [Receive 100], s)
     | RD_frame header body # _ \<Rightarrow>
         if message header = msgtype_code MESSAGE_DEVICE_ADD then
           (case dfd body of
              Some device_info \<Rightarrow>
                (Pending, [Receive 100], s\<lparr> devices := devices s @ [device_info] \<rparr>)
            | None \<Rightarrow> (Pending, [Receive 100], s))
         else if message header = msgtype_code MESSAGE_DEVICE_REMOVE then
           (case getUint32 body 0 of
              None \<Rightarrow> (Pending, [Receive 100], s)
            | Some h \<Rightarrow>
                (let device_list' = splice_handle (Num (real h)) device_list
                 in (Pending, [Receive 100], s)))
         else (Pending, [Receive 100], s))"

text \<open>
  \<^verbatim>\<open>connect_and_list_devices\<close>. Each call opens one connection and so takes the next
  session; with no session left the connect never completes. \<^verbatim>\<open>++_use_tag\<close> runs once
  before the \<^verbatim>\<open>_proto_version == 1\<close> test and once more on the listen path. A number
  that is \<open>NaN\<close> fails \<^verbatim>\<open>isNumber\<close> and has no \<^verbatim>\<open>DeviceList\<close>; reading
  \<^verbatim>\<open>DeviceList\<close> of \<open>undefined\<close> throws.
\<close>

fun connect_and_list_devices ::
  "(ArrayBuffer \<Rightarrow> usbmuxd_device_info_t option) \<Rightarrow> daemon_session list \<Rightarrow> usbmuxd_state
     \<Rightarrow> listing \<times> transport_action list \<times> usbmuxd_state" where
  "connect_and_list_devices dfd [] s = (Pending, [Connect], s)"
| "connect_and_list_devices dfd (d # ds) s =
    (case on_connect d of
       SocketError \<Rightarrow> (Resolved (Inl (Num (- errno_value ENOENT))), [Connect], s)
     | SocketConnected \<Rightarrow>
        (let s1 = s\<lparr> use_tag := Suc (use_tag s) \<rparr>
         in if proto_version s1 = 1 then
              (case on_list_devices d of
                 LD_number lsdev_result \<Rightarrow>
                   if isNumber_num lsdev_result then
                     (let s2 = (if lsdev_result = Num (real (result_code RESULT_BADVERSION))
                                then s1\<lparr> proto_version := 0 \<rparr> else s1);
                          (r, actions, s3) = connect_and_list_devices dfd ds s2
                      in (r, [Connect, ListDevices (use_tag s1) (proto_version s1), Destroy]
                               @ actions, s3))
                   else
                     (Resolved (Inr []),
                      [Connect, ListDevices (use_tag s1) (proto_version s1), Destroy],
                      s1\<lparr> devices := [] \<rparr>)
               | LD_undefined \<Rightarrow>
                   (Pending, [Connect, ListDevices (use_tag s1) (proto_version s1)], s1)
               | LD_plist lsdev_result \<Rightarrow>
                   (case (case map_of lsdev_result ''DeviceList'' of
                            Some (PArray plist_devlist) \<Rightarrow> push_device_infos plist_devlist []
                          | _ \<Rightarrow> Some []) of
                      None \<Rightarrow>
                        (Resolved (Inl (Num (- errno_value EPERM))),
                         [Connect, ListDevices (use_tag s1) (proto_version s1), Destroy], s1)
                    | Some device_list \<Rightarrow>
                        (Resolved (Inr device_list),
                         [Connect, ListDevices (use_tag s1) (proto_version s1), Destroy],
                         s1\<lparr> devices := device_list \<rparr>)))
            else
              (let s2 = s1\<lparr> use_tag := Suc (use_tag s1) \<rparr>
               in case on_listen d of
                    Some listen_result \<Rightarrow>
                      if isNumber_num listen_result then
                        (if listen_result = Num (real (result_code RESULT_BADVERSION))
                            \<and> proto_version s2 = 1
                         then (let s3 = s2\<lparr> proto_version := 0 \<rparr>;
                                   (r, actions, s4) = connect_and_list_devices dfd ds s3
                               in (r, [Connect, Listen (use_tag s2) (proto_version s2), Destroy]
                                        @ actions, s4))
                         else (Resolved (Inl listen_result),
                               [Connect, Listen (use_tag s2) (proto_version s2), Destroy], s2))
                      else
                        (let (r, actions, s3) =
                               recursively_get_device_list dfd (on_receive d) [] s2
                         in (r, [Connect, Listen (use_tag s2) (proto_version s2)] @ actions, s3))
                  | None \<Rightarrow>
                      (let (r, actions, s3) =
                             recursively_get_device_list dfd (on_receive d) [] s2
                       in (r, [Connect, Listen (use_tag s2) (proto_version s2)] @ actions, s3)))))"

definition usbmuxd_get_device_list ::
  "(ArrayBuffer \<Rightarrow> usbmuxd_device_info_t option) \<Rightarrow> daemon_session list \<Rightarrow> usbmuxd_state
     \<Rightarrow> listing \<times> transport_action list \<times> usbmuxd_state" where
  "usbmuxd_get_device_list dfd sessions s = connect_and_list_devices dfd sessions s"

section \<open>Sending a request\<close>

text \<open>
  \<^verbatim>\<open>DataView.setUint32(off, v)\<close>: the value is taken modulo \<open>2 ^ 32\<close> and stored
  big-endian; a \<^verbatim>\<open>RangeError\<close> (\<open>None\<close>) when the four bytes are not inside the buffer.
\<close>

definition setUint32 :: "byte list \<Rightarrow> nat \<Rightarrow> nat \<Rightarrow> byte list option" where
  "setUint32 buf off v =
    (if off + 4 \<le> length buf
     then Some (buf[off := of_nat (v div 2 ^ 24 mod 256),
                    off + 1 := of_nat (v div 2 ^ 16 mod 256),
                    off + 2 := of_nat (v div 2 ^ 8 mod 256),
                    off + 3 := of_nat (v mod 256)])
     else None)"

text \<open>
  What happens on the socket during \<^verbatim>\<open>socket_send_data\<close>: the chunks handed to
  \<^verbatim>\<open>sfd.write\<close> and a \<^verbatim>\<open>sfd.destroy()\<close>. The function resolves with a number or with
  nothing (\<^verbatim>\<open>resolve()\<close>).
\<close>

datatype socket_event = Write "byte list" | DestroySocket

datatype send_result = SR_number js_number | SR_void

text \<open>
  The last step of \<^verbatim>\<open>socket_send_data\<close>: the promise resolves when the socket emits
  \<^verbatim>\<open>data\<close>; \<open>answered\<close> tells whether it ever does.
\<close>

definition on_data_received ::
  "bool \<Rightarrow> socket_event list \<Rightarrow> send_result promise \<times> socket_event list" where
  "on_data_received answered events =
    (if answered then (Resolved SR_void, events) else (Pending, events))"

text \<open>
  \<^verbatim>\<open>socket_send_data(sfd, message, tag, data?)\<close>. \<open>sent\<close> lists the booleans that the
  successive calls of \<^verbatim>\<open>socket_send_raw_data\<close> resolve with (none left: the write never
  completes).
\<close>

definition socket_send_data ::
  "usbmuxd_msgtype \<Rightarrow> nat \<Rightarrow> ArrayBuffer option \<Rightarrow> bool list \<Rightarrow> bool \<Rightarrow> usbmuxd_state
     \<Rightarrow> send_result promise \<times> socket_event list" where
  "socket_send_data msg tg data sent answered s =
    (let header_byte_length = 4 * 4;
         data_byte_length = (case data of Some d \<Rightarrow> length d | None \<Rightarrow> 0);
         header = \<lparr> length_h = header_byte_length + data_byte_length,
                    version = proto_version s,
                    message = msgtype_code msg,
                    tag = tg \<rparr>;
         header_data = replicate header_byte_length 0
     in case Option.bind (setUint32 header_data 0 (length_h header)) (\<lambda>b0.
             Option.bind (setUint32 b0 4 (version header)) (\<lambda>b1.
             Option.bind (setUint32 b1 8 (message header)) (\<lambda>b2.
             setUint32 b2 12 (tag header)))) of
          None \<Rightarrow> (Pending, [])
        | Some header_data \<Rightarrow>
            (case sent of
               [] \<Rightarrow> (Pending, [Write header_data])
             | header_sent # sent' \<Rightarrow>
                 if \<not> header_sent
                 then (Resolved (SR_number (Num (- errno_value EPERM))), [Write header_data])
                 else
                   (case data of
                      None \<Rightarrow> on_data_received answered [Write header_data]
                    | Some d \<Rightarrow>
                        if length d > 0 then
                          (case sent' of
                             [] \<Rightarrow> (Pending, [Write header_data, Write d])
                           | data_sent # _ \<Rightarrow>
                               if \<not> data_sent
                               then (Resolved (SR_number (Num (- errno_value EPERM))),
                                     [Write header_data, Write d, DestroySocket])
                               else on_data_received answered [Write header_data, Write d])
                        else on_data_received answered [Write header_data])))"

text \<open>The bytes handed to the socket, in order.\<close>

fun written :: "socket_event list \<Rightarrow> byte list" where
  "written [] = []"
| "written (Write bs # es) = bs @ written es"
| "written (DestroySocket # es) = written es"

subsection \<open>Property-list requests\<close>

text \<open>
  \<^verbatim>\<open>create_plist_message\<close> writes a document as text and hands it to \<^verbatim>\<open>plist.parse\<close>.
  The document is kept here as the tree of its elements (white space between elements
  left out); \<^verbatim>\<open>message_type\<close> is spliced in as the text of one element.
\<close>

datatype xml = Element string "xml list" | Text string

fun element_name :: "xml \<Rightarrow> string" where
  "element_name (Element name children) = name"
| "element_name (Text t) = ''#text''"

fun child_nodes :: "xml \<Rightarrow> xml list" where
  "child_nodes (Element name children) = children"
| "child_nodes (Text t) = []"

definition PACKAGE :: string where
  "PACKAGE = ''libusbmuxd''"

definition PLIST_LIBUSBMUX_VERSION :: string where
  "PLIST_LIBUSBMUX_VERSION = ''3''"

definition create_plist_message_document :: "string \<Rightarrow> xml" where
  "create_plist_message_document message_type =
    Element ''plist''
      [Element ''key'' [Text ''ClientVersionString''],
       Element ''string'' [Text PACKAGE],
       Element ''key'' [Text ''MessageType''],
       Element ''string'' [Text message_type],
       Element ''key'' [Text ''kLibUSBMuxVersion''],
       Element ''string'' [Text PLIST_LIBUSBMUX_VERSION]]"

text \<open>
  The \<^verbatim>\<open>plist\<close> package is not part of the repository: \<open>parse\<close> stands for
  \<^verbatim>\<open>plist.parse\<close> and \<open>build\<close> for \<^verbatim>\<open>plist.build\<close> followed by the text encoder.
\<close>

definition create_plist_message :: "(xml \<Rightarrow> plist_value) \<Rightarrow> string \<Rightarrow> plist_value" where
  "create_plist_message parse message_type = parse (create_plist_message_document message_type)"

definition socket_send_plist ::
  "(plist_value \<Rightarrow> ArrayBuffer) \<Rightarrow> nat \<Rightarrow> plist_value \<Rightarrow> bool list \<Rightarrow> bool \<Rightarrow> usbmuxd_state
     \<Rightarrow> send_result promise \<times> socket_event list" where
  "socket_send_plist build tg plist_object sent answered s =
    socket_send_data MESSAGE_PLIST tg (Some (build plist_object)) sent answered s"

definition socket_list_devices ::
  "(xml \<Rightarrow> plist_value) \<Rightarrow> (plist_value \<Rightarrow> ArrayBuffer) \<Rightarrow> nat \<Rightarrow> bool list \<Rightarrow> bool
     \<Rightarrow> usbmuxd_state \<Rightarrow> send_result promise \<times> socket_event list" where
  "socket_list_devices parse build tg sent answered s =
    socket_send_plist build tg (create_plist_message parse ''ListDevices'') sent answered s"

definition socket_listen ::
  "(xml \<Rightarrow> plist_value) \<Rightarrow> (plist_value \<Rightarrow> ArrayBuffer) \<Rightarrow> nat \<Rightarrow> bool list \<Rightarrow> bool
     \<Rightarrow> usbmuxd_state \<Rightarrow> send_result promise \<times> socket_event list" where
  "socket_listen parse build tg sent answered s =
    (if proto_version s = 1
     then socket_send_plist build tg (create_plist_message parse ''Listen'') sent answered s
     else socket_send_data MESSAGE_LISTEN tg None sent answered s)"

section \<open>Sequences of calls\<close>

text \<open>
  The exported functions, called one after the other on the module state. Every exported
  function other than the three modelled above has the body \<^verbatim>\<open>throw new Error()\<close>
  (\<^verbatim>\<open>libusbmuxd_set_debug_level\<close> has an empty one): \<open>Call_other\<close> stands for any of
  them and leaves the state as it is.

  Modelled from the spec: the standing listen session of the spec's Event Subscription
  Registry, which would set \<^verbatim>\<open>_watching\<close> and keep \<^verbatim>\<open>_devices\<close> up to date, is not
  in the source. \<open>Listen_session_activity\<close> stands for whatever it does between two
  calls: any new value of the flag and of the directory.
\<close>

datatype operation =
    Call_subscribe usbmuxd_event_cb_t ArrayBuffer
  | Call_unsubscribe usbmuxd_subscription_context_t
  | Call_get_device_list "daemon_session list"
  | Call_other
  | Listen_session_activity bool "usbmuxd_device_info_t list"

datatype outcome =
    Subscribed "js_number + usbmuxd_subscription_context_t" "callback_call list"
  | Unsubscribed js_number "callback_call list"
  | Listed listing "transport_action list"
  | Thrown
  | Activity

fun call ::
  "(ArrayBuffer \<Rightarrow> usbmuxd_device_info_t option) \<Rightarrow> operation \<Rightarrow> usbmuxd_state
     \<Rightarrow> outcome \<times> usbmuxd_state" where
  "call dfd (Call_subscribe cb ud) s =
    (case usbmuxd_events_subscribe cb ud s of (r, calls, s') \<Rightarrow> (Subscribed r calls, s'))"
| "call dfd (Call_unsubscribe context) s =
    (case usbmuxd_events_unsubscribe context s of (r, calls, s') \<Rightarrow> (Unsubscribed r calls, s'))"
| "call dfd (Call_get_device_list sessions) s =
    (case usbmuxd_get_device_list dfd sessions s of (r, actions, s') \<Rightarrow> (Listed r actions, s'))"
| "call dfd Call_other s = (Thrown, s)"
| "call dfd (Listen_session_activity w ds) s = (Activity, s\<lparr> watching := w, devices := ds \<rparr>)"

fun run ::
  "(ArrayBuffer \<Rightarrow> usbmuxd_device_info_t option) \<Rightarrow> operation list \<Rightarrow> usbmuxd_state
     \<Rightarrow> outcome list \<times> usbmuxd_state" where
  "run dfd [] s = ([], s)"
| "run dfd (op # ops) s =
    (case call dfd op s of (r, s') \<Rightarrow>
       (case run dfd ops s' of (rs, s'') \<Rightarrow> (r # rs, s'')))"

text \<open>
  The number of events of one type among the invocations of one callback.
\<close>

definition count_events ::
  "usbmuxd_event_type \<Rightarrow> usbmuxd_event_cb_t \<Rightarrow> callback_call list \<Rightarrow> nat" where
  "count_events ty cb calls =
    length (filter (\<lambda>c. called c = cb \<and> event (with_event c) = ty) calls)"

text \<open>The handles that the calls of \<^verbatim>\<open>usbmuxd_events_subscribe\<close> returned, in order.\<close>

fun returned_handles :: "outcome list \<Rightarrow> usbmuxd_subscription_context_t list" where
  "returned_handles [] = []"
| "returned_handles (Subscribed (Inr h) calls # rs) = h # returned_handles rs"
| "returned_handles (r # rs) = returned_handles rs"

section \<open>Invariant of the registry and concrete inputs\<close>

text \<open>
  No handle at or above the allocation counter is registered: every registered handle was
  allocated by an earlier call of \<^verbatim>\<open>usbmuxd_events_subscribe\<close>.
\<close>

definition registry_ok :: "usbmuxd_state \<Rightarrow> bool" where
  "registry_ok s = (\<forall>h. next_object s \<le> h \<longrightarrow> map_of (listener_map s) h = None)"

text \<open>Device records as the daemon sends them, and the devices they describe.\<close>

definition usb_record :: plist_value where
  "usb_record = PObject [(''DeviceID'', PNumber (Num 5)), (''ProductID'', PNumber (Num 4776)),
                         (''SerialNumber'', PString ''00008030A'' ),
                         (''ConnectionType'', PString ''USB'')]"

definition network_record :: plist_value where
  "network_record = PObject [(''DeviceID'', PNumber (Num 9)), (''ProductID'', PNumber (Num 4776)),
                             (''SerialNumber'', PString ''00008030B''),
                             (''ConnectionType'', PString ''Network''),
                             (''NetworkAddress'', PData [192, 168, 0, 2])]"

definition record_without_serial :: plist_value where
  "record_without_serial = PObject [(''DeviceID'', PNumber (Num 7)),
                                    (''ProductID'', PNumber (Num 4776)),
                                    (''ConnectionType'', PString ''USB'')]"

definition usb_device :: usbmuxd_device_info_t where
  "usb_device = \<lparr> handle = Num 5, product_id = Num 4776, udid = ''00008030A'',
                  conn_type = CONNECTION_TYPE_USB, conn_data = [] \<rparr>"

definition other_device :: usbmuxd_device_info_t where
  "other_device = \<lparr> handle = Num 6, product_id = Num 4776, udid = ''00008030C'',
                    conn_type = CONNECTION_TYPE_USB, conn_data = [] \<rparr>"

text \<open>Two behaviours for \<^verbatim>\<open>device_info_from_data\<close>: no record decodes, every record decodes.\<close>

definition no_device_info_from_data :: "ArrayBuffer \<Rightarrow> usbmuxd_device_info_t option" where
  "no_device_info_from_data body = None"

definition other_device_info_from_data :: "ArrayBuffer \<Rightarrow> usbmuxd_device_info_t option" where
  "other_device_info_from_data body = Some other_device"

text \<open>
  Daemon behaviours on one connection: the answer \<^verbatim>\<open>RESULT_BADVERSION\<close> to
  \<^verbatim>\<open>ListDevices\<close>, the answer \<^verbatim>\<open>RESULT_BADCOMMAND\<close>, a device list with one USB
  device, an empty one, one whose second record has no serial number, a listen session
  on which nothing arrives before the timeout, and one on which a \<^verbatim>\<open>MESSAGE_DEVICE_ADD\<close>
  frame arrives and then nothing.
\<close>

definition badversion_session :: daemon_session where
  "badversion_session = \<lparr> on_connect = SocketConnected, on_list_devices = LD_number (Num 6),
                          on_listen = None, on_receive = [] \<rparr>"

definition badcommand_session :: daemon_session where
  "badcommand_session = \<lparr> on_connect = SocketConnected, on_list_devices = LD_number (Num 1),
                          on_listen = None, on_receive = [] \<rparr>"

definition one_device_session :: daemon_session where
  "one_device_session = \<lparr> on_connect = SocketConnected,
                          on_list_devices = LD_plist [(''DeviceList'', PArray [usb_record])],
                          on_listen = None, on_receive = [] \<rparr>"

definition no_device_session :: daemon_session where
  "no_device_session = \<lparr> on_connect = SocketConnected,
                         on_list_devices = LD_plist [(''DeviceList'', PArray [])],
                         on_listen = None, on_receive = [] \<rparr>"

definition malformed_record_session :: daemon_session where
  "malformed_record_session =
     \<lparr> on_connect = SocketConnected,
       on_list_devices = LD_plist [(''DeviceList'', PArray [usb_record, record_without_serial])],
       on_listen = None, on_receive = [] \<rparr>"

definition quiet_listen_session :: daemon_session where
  "quiet_listen_session = \<lparr> on_connect = SocketConnected, on_list_devices = LD_number (Num 6),
                            on_listen = None, on_receive = [RD_number (Num (- 1))] \<rparr>"

definition device_add_session :: daemon_session where
  "device_add_session =
     \<lparr> on_connect = SocketConnected, on_list_devices = LD_number (Num 6), on_listen = None,
       on_receive = [RD_frame \<lparr> length_h = 16, version = 0, message = 4, tag = 0 \<rparr> [],
                     RD_number (Num (- 1))] \<rparr>"

text \<open>
  The state after a listing that found one USB device, and the state after the version
  was downgraded.
\<close>

definition listed_state :: usbmuxd_state where
  "listed_state = snd (run no_device_info_from_data
                         [Call_get_device_list [one_device_session]] initial_state)"

definition legacy_state :: usbmuxd_state where
  "legacy_state = snd (run no_device_info_from_data
                         [Call_get_device_list [badversion_session, quiet_listen_session]]
                         initial_state)"

section \<open>Facts about the model\<close>

lemma count_events_map:
  "count_events ty cb
     (map (\<lambda>d. \<lparr> called = cb', with_event = \<lparr> event = ty', device = d \<rparr>,
                with_user_data = u \<rparr>) ds)
     = (if cb' = cb \<and> ty' = ty then length ds else 0)"
  by (induction ds) (auto simp: count_events_def)

lemma recursively_get_device_list_keeps:
  "recursively_get_device_list dfd rs dl s = (r, a, s') \<Longrightarrow>
     proto_version s' = proto_version s \<and> next_object s' = next_object s
     \<and> listener_map s' = listener_map s \<and> watching s' = watching s"
  by (auto simp: recursively_get_device_list_def Let_def
           split: list.splits receive_result.splits if_splits option.splits)

lemma connect_and_list_devices_keeps:
  "connect_and_list_devices dfd ds s = (r, a, s') \<Longrightarrow>
     (proto_version s' = proto_version s \<or> proto_version s' = 0)
     \<and> next_object s' = next_object s \<and> listener_map s' = listener_map s
     \<and> watching s' = watching s"
proof (induction ds arbitrary: s r a s')
  case Nil
  then show ?case by simp
next
  case (Cons d ds)
  show ?case
    using Cons.prems
    apply (simp add: Let_def split: connect_result.splits if_splits
             list_devices_result.splits option.splits prod.splits)
    apply (auto dest!: Cons.IH recursively_get_device_list_keeps)
    done
qed

lemma call_version:
  "call dfd op s = (r, s') \<Longrightarrow> proto_version s' = proto_version s \<or> proto_version s' = 0"
  by (cases op)
     (auto simp: usbmuxd_events_subscribe_def usbmuxd_events_unsubscribe_def
                 usbmuxd_get_device_list_def Let_def
           split: option.splits prod.splits if_splits
           dest: connect_and_list_devices_keeps)

lemma run_version_sticky:
  "run dfd ops s = (rs, s') \<Longrightarrow> proto_version s = 0 \<Longrightarrow> proto_version s' = 0"
proof (induction ops arbitrary: s rs s')
  case Nil
  then show ?case by simp
next
  case (Cons op ops)
  then show ?case
    by (auto split: prod.splits dest: call_version)
qed

lemma run_version_range:
  "run dfd ops s = (rs, s') \<Longrightarrow> proto_version s' = proto_version s \<or> proto_version s' = 0"
proof (induction ops arbitrary: s rs s')
  case Nil
  then show ?case by simp
next
  case (Cons op ops)
  then show ?case
    by (fastforce split: prod.splits dest: call_version)
qed

lemma run_append:
  "run dfd (ops @ ops') s =
     (case run dfd ops s of (rs, s') \<Rightarrow>
        (case run dfd ops' s' of (rs', s'') \<Rightarrow> (rs @ rs', s'')))"
  by (induction ops arbitrary: s) (auto split: prod.splits)

lemma call_registry:
  assumes "call dfd op s = (r, s')" and "registry_ok s"
  shows "registry_ok s' \<and> next_object s \<le> next_object s'
         \<and> (\<forall>h \<in> set (returned_handles [r]). next_object s \<le> h \<and> h < next_object s')"
proof (cases op)
  case (Call_subscribe cb ud)
  with assms show ?thesis
    by (auto simp: usbmuxd_events_subscribe_def Let_def registry_ok_def update_conv'
             split: if_splits)
next
  case (Call_unsubscribe h)
  with assms show ?thesis
    by (auto simp: usbmuxd_events_unsubscribe_def registry_ok_def delete_conv'
             split: option.splits)
next
  case (Call_get_device_list sessions)
  with assms show ?thesis
    by (auto simp: usbmuxd_get_device_list_def registry_ok_def split: prod.splits
             dest!: connect_and_list_devices_keeps)
next
  case Call_other
  with assms show ?thesis by auto
next
  case (Listen_session_activity w ds)
  with assms show ?thesis by (auto simp: registry_ok_def)
qed

lemma returned_handles_Cons:
  "returned_handles (r # rs) = returned_handles [r] @ returned_handles rs"
  by (cases "(r # rs)" rule: returned_handles.cases) auto

lemma run_registry:
  "run dfd ops s = (rs, s') \<Longrightarrow> registry_ok s \<Longrightarrow>
     registry_ok s' \<and> next_object s \<le> next_object s'
     \<and> (\<forall>h \<in> set (returned_handles rs). next_object s \<le> h \<and> h < next_object s')
     \<and> distinct (returned_handles rs)"
proof (induction ops arbitrary: s rs s')
  case Nil
  then show ?case by simp
next
  case (Cons op ops)
  obtain r s1 where c: "call dfd op s = (r, s1)" by (cases "call dfd op s")
  obtain rs1 where r: "run dfd ops s1 = (rs1, s')" and rs: "rs = r # rs1"
    using Cons.prems(1) c by (auto split: prod.splits)
  note A = call_registry [OF c Cons.prems(2)]
  note B = Cons.IH [OF r conjunct1 [OF A]]
  have d1: "distinct (returned_handles [r])"
    by (cases "[r]" rule: returned_handles.cases) auto
  show ?case
    unfolding rs returned_handles_Cons [of r rs1]
    using A B d1 by fastforce
qed

lemma registry_ok_initial: "registry_ok initial_state"
  by (simp add: registry_ok_def initial_state_def)

lemma listed_state_eq:
  "listed_state = initial_state\<lparr> use_tag := 1, devices := [usb_device] \<rparr>"
  by (simp add: listed_state_def usbmuxd_get_device_list_def one_device_session_def
      initial_state_def usb_record_def device_info_from_plist_def usb_device_def
      isNumber_num_def)

lemma legacy_state_eq:
  "legacy_state = initial_state\<lparr> use_tag := 3, proto_version := 0 \<rparr>"
  by (simp add: legacy_state_def usbmuxd_get_device_list_def badversion_session_def
      quiet_listen_session_def initial_state_def isNumber_num_def
      recursively_get_device_list_def)

section \<open>The claims\<close>

text \<open>
  C6. \<^verbatim>\<open>device_info_from_plist\<close> returns a device exactly when \<^verbatim>\<open>DeviceID\<close> and
  \<^verbatim>\<open>ProductID\<close> are numbers (in the sense of \<^verbatim>\<open>isNumber\<close>), \<^verbatim>\<open>SerialNumber\<close> is a
  string, \<^verbatim>\<open>ConnectionType\<close> is \<^verbatim>\<open>"USB"\<close> or \<^verbatim>\<open>"Network"\<close> and, for
  \<^verbatim>\<open>"Network"\<close>, \<^verbatim>\<open>NetworkAddress\<close> is a byte array. The device then carries the three
  fields; its auxiliary bytes are empty for USB and are \<^verbatim>\<open>NetworkAddress\<close> for Network.
\<close>

theorem device_info_from_plist_accepts:
  "((\<exists>d. device_info_from_plist props = Some d) \<longleftrightarrow>
      (isNumber (property props ''DeviceID'') \<and> isNumber (property props ''ProductID'')
       \<and> isString (property props ''SerialNumber'')
       \<and> (property props ''ConnectionType'' = Some (PString ''USB'')
          \<or> property props ''ConnectionType'' = Some (PString ''Network''))
       \<and> (property props ''ConnectionType'' = Some (PString ''Network'')
            \<longrightarrow> instanceof_Uint8Array (property props ''NetworkAddress''))))
   \<and> (\<forall>d. device_info_from_plist props = Some d \<longrightarrow>
         property props ''DeviceID'' = Some (PNumber (handle d))
       \<and> property props ''ProductID'' = Some (PNumber (product_id d))
       \<and> property props ''SerialNumber'' = Some (PString (udid d))
       \<and> (property props ''ConnectionType'' = Some (PString ''USB'')
            \<longrightarrow> conn_type d = CONNECTION_TYPE_USB \<and> conn_data d = [])
       \<and> (property props ''ConnectionType'' = Some (PString ''Network'')
            \<longrightarrow> conn_type d = CONNECTION_TYPE_NETWORK
              \<and> property props ''NetworkAddress'' = Some (PData (conn_data d))))"
proof -
  have num: "\<And>x. isNumber x \<Longrightarrow> x = Some (PNumber (as_number x))"
    by (erule isNumber.elims) auto
  have str: "\<And>x. isString x \<Longrightarrow> x = Some (PString (as_string x))"
    by (erule isString.elims) auto
  have dat: "\<And>x. instanceof_Uint8Array x \<Longrightarrow> x = Some (PData (as_Uint8Array x))"
    by (erule instanceof_Uint8Array.elims) auto
  show ?thesis
    using num [of "property props ''DeviceID''"] num [of "property props ''ProductID''"]
      str [of "property props ''SerialNumber''"] dat [of "property props ''NetworkAddress''"]
    by (auto simp: device_info_from_plist_def Let_def)
qed

theorem device_info_from_plist_accepts_witness:
  "\<exists>d. device_info_from_plist network_record = Some d
       \<and> handle d = Num 9 \<and> conn_type d = CONNECTION_TYPE_NETWORK
       \<and> conn_data d = [192, 168, 0, 2]"
proof -
  note T = device_info_from_plist_accepts [of network_record]
  have "\<exists>d. device_info_from_plist network_record = Some d"
    using T by (simp add: network_record_def)
  then obtain d where d: "device_info_from_plist network_record = Some d" ..
  from T d have "handle d = Num 9 \<and> conn_type d = CONNECTION_TYPE_NETWORK
                 \<and> conn_data d = [192, 168, 0, 2]"
    by (simp add: network_record_def)
  with d show ?thesis by blast
qed

text \<open>
  C7. \<^verbatim>\<open>usbmuxd_events_unsubscribe\<close> on a handle that is not registered returns the
  negative number \<^verbatim>\<open>-EINVAL\<close>, invokes no callback and leaves the whole state as it is.
  On a registered handle it invokes that subscriber's callback once per device of the
  directory, in order, with \<^verbatim>\<open>UE_DEVICE_REMOVE\<close>, removes that registration and no
  other, leaves the directory as it is and returns 0.
\<close>

theorem usbmuxd_events_unsubscribe_cases:
  "(map_of (listener_map s) context = None \<longrightarrow>
      usbmuxd_events_unsubscribe context s = (Num (- errno_value EINVAL), [], s)
      \<and> - errno_value EINVAL < 0)
   \<and> (\<forall>rc. map_of (listener_map s) context = Some rc \<longrightarrow>
        (\<exists>calls s'. usbmuxd_events_unsubscribe context s = (Num 0, calls, s')
           \<and> map called calls = replicate (length (devices s)) (callback rc)
           \<and> map with_event calls
               = map (\<lambda>d. \<lparr> event = UE_DEVICE_REMOVE, device = d \<rparr>) (devices s)
           \<and> map_of (listener_map s') context = None
           \<and> (\<forall>h. h \<noteq> context \<longrightarrow> map_of (listener_map s') h = map_of (listener_map s) h)
           \<and> devices s' = devices s \<and> watching s' = watching s
           \<and> proto_version s' = proto_version s \<and> use_tag s' = use_tag s))"
  by (auto simp: usbmuxd_events_unsubscribe_def delete_conv map_replicate_const comp_def)

theorem usbmuxd_events_unsubscribe_cases_witness:
  "usbmuxd_events_unsubscribe 3 listed_state = (Num (- 22), [], listed_state)
   \<and> (\<exists>calls s'. usbmuxd_events_unsubscribe 0
                     (snd (snd (usbmuxd_events_subscribe 7 [] listed_state)))
                   = (Num 0, calls, s')
         \<and> map called calls = [7]
         \<and> map with_event calls = [\<lparr> event = UE_DEVICE_REMOVE, device = usb_device \<rparr>]
         \<and> map_of (listener_map s') 0 = None)"
proof -
  let ?t = "snd (snd (usbmuxd_events_subscribe 7 [] listed_state))"
  have t: "?t = listed_state\<lparr> next_object := 1,
                  listener_map := [(0, \<lparr> callback = 7, user_data = [] \<rparr>)] \<rparr>"
    by (simp add: usbmuxd_events_subscribe_def listed_state_eq initial_state_def)
  have a: "usbmuxd_events_unsubscribe 3 listed_state = (Num (- 22), [], listed_state)"
    using usbmuxd_events_unsubscribe_cases [of listed_state 3]
    by (simp add: listed_state_eq initial_state_def)
  have b: "map_of (listener_map ?t) 0 = Some \<lparr> callback = 7, user_data = [] \<rparr>"
    unfolding t by simp
  have c: "devices ?t = [usb_device]"
    unfolding t by (simp add: listed_state_eq)
  from usbmuxd_events_unsubscribe_cases [of ?t 0] b c
  have "\<exists>calls s'. usbmuxd_events_unsubscribe 0 ?t = (Num 0, calls, s')
         \<and> map called calls = [7]
         \<and> map with_event calls = [\<lparr> event = UE_DEVICE_REMOVE, device = usb_device \<rparr>]
         \<and> map_of (listener_map s') 0 = None"
    by auto
  with a show ?thesis by blast
qed


text \<open>
  C10. \<^verbatim>\<open>usbmuxd_events_subscribe\<close> never returns a number. After any sequence of calls
  it returns a handle that no earlier call returned and that is not registered yet, so
  subscribing one callback twice gives two registrations. In every state it registers
  the pair under the handle it returns, keeps every other registration, and delivers no
  event when \<^verbatim>\<open>_watching\<close> is false.
\<close>

theorem usbmuxd_events_subscribe_fresh_handle:
  "(\<exists>h. fst (usbmuxd_events_subscribe cb ud (snd (run dfd ops initial_state))) = Inr h
        \<and> h \<notin> set (returned_handles (fst (run dfd ops initial_state)))
        \<and> map_of (listener_map (snd (run dfd ops initial_state))) h = None)
   \<and> (\<forall>t. \<exists>h calls t'. usbmuxd_events_subscribe cb ud t = (Inr h, calls, t')
          \<and> map_of (listener_map t') h = Some \<lparr> callback = cb, user_data = ud \<rparr>
          \<and> (\<forall>h'. h' \<noteq> h \<longrightarrow> map_of (listener_map t') h' = map_of (listener_map t) h')
          \<and> (\<not> watching t \<longrightarrow> calls = []))"
proof -
  obtain rs s where r: "run dfd ops initial_state = (rs, s)"
    by (cases "run dfd ops initial_state")
  from run_registry [OF r registry_ok_initial]
  have ok: "registry_ok s" and below: "\<forall>h \<in> set (returned_handles rs). h < next_object s"
    by auto
  have "fst (usbmuxd_events_subscribe cb ud s) = Inr (next_object s)"
    by (simp add: usbmuxd_events_subscribe_def Let_def)
  moreover have "next_object s \<notin> set (returned_handles rs)"
    using below by auto
  moreover have "map_of (listener_map s) (next_object s) = None"
    using ok by (simp add: registry_ok_def)
  ultimately have first: "\<exists>h. fst (usbmuxd_events_subscribe cb ud s) = Inr h
        \<and> h \<notin> set (returned_handles rs) \<and> map_of (listener_map s) h = None"
    by blast
  have second: "\<exists>h calls t'. usbmuxd_events_subscribe cb ud t = (Inr h, calls, t')
          \<and> map_of (listener_map t') h = Some \<lparr> callback = cb, user_data = ud \<rparr>
          \<and> (\<forall>h'. h' \<noteq> h \<longrightarrow> map_of (listener_map t') h' = map_of (listener_map t) h')
          \<and> (\<not> watching t \<longrightarrow> calls = [])" for t
    by (simp add: usbmuxd_events_subscribe_def Let_def update_conv')
  from first second show ?thesis
    by (simp add: r)
qed

theorem usbmuxd_events_subscribe_fresh_handle_witness:
  "fst (usbmuxd_events_subscribe 7 []
         (snd (run no_device_info_from_data [Call_subscribe 7 [], Call_subscribe 7 []]
                 initial_state))) = Inr 2
   \<and> returned_handles (fst (run no_device_info_from_data
                                [Call_subscribe 7 [], Call_subscribe 7 []] initial_state))
       = [0, 1]
   \<and> fst (snd (usbmuxd_events_subscribe 7 [] listed_state)) = []"
proof -
  note T = usbmuxd_events_subscribe_fresh_handle
             [of 7 "[]" no_device_info_from_data "[Call_subscribe 7 [], Call_subscribe 7 []]"]
  have w: "\<not> watching listed_state"
    by (simp add: listed_state_eq initial_state_def)
  from T obtain h calls t' where
    "usbmuxd_events_subscribe 7 [] listed_state = (Inr h, calls, t')"
    "\<not> watching listed_state \<longrightarrow> calls = []"
    by blast
  with w have c: "fst (snd (usbmuxd_events_subscribe 7 [] listed_state)) = []"
    by simp
  have "fst (usbmuxd_events_subscribe 7 []
         (snd (run no_device_info_from_data [Call_subscribe 7 [], Call_subscribe 7 []]
                 initial_state))) = Inr 2
        \<and> returned_handles (fst (run no_device_info_from_data
                                [Call_subscribe 7 [], Call_subscribe 7 []] initial_state))
       = [0, 1]"
    by (simp add: usbmuxd_events_subscribe_def initial_state_def Let_def)
  with c show ?thesis by blast
qed

text \<open>
  C3, as the code has it. At its subscribe call a subscriber's callback receives one
  \<^verbatim>\<open>UE_DEVICE_ADD\<close> event per device of the directory when \<^verbatim>\<open>_watching\<close> is true and
  none when it is false. At the unsubscribe call of its handle it receives one
  \<^verbatim>\<open>UE_DEVICE_REMOVE\<close> event per device of the directory at that moment, whatever
  \<^verbatim>\<open>_watching\<close> is. The two numbers are equal when \<^verbatim>\<open>_watching\<close> was true at the
  subscribe call and the directory holds as many devices at both moments.
\<close>

theorem replay_counts:
  "count_events UE_DEVICE_ADD cb (fst (snd (usbmuxd_events_subscribe cb ud s)))
     = (if watching s then length (devices s) else 0)
   \<and> length (fst (snd (usbmuxd_events_subscribe cb ud s)))
     = (if watching s then length (devices s) else 0)
   \<and> (map_of (listener_map t) h = Some \<lparr> callback = cb, user_data = ud \<rparr> \<longrightarrow>
        count_events UE_DEVICE_REMOVE cb (fst (snd (usbmuxd_events_unsubscribe h t)))
          = length (devices t)
        \<and> length (fst (snd (usbmuxd_events_unsubscribe h t))) = length (devices t)
        \<and> (watching s \<and> length (devices s) = length (devices t) \<longrightarrow>
             count_events UE_DEVICE_ADD cb (fst (snd (usbmuxd_events_subscribe cb ud s)))
             = count_events UE_DEVICE_REMOVE cb (fst (snd (usbmuxd_events_unsubscribe h t)))))"
proof -
  have nil: "count_events ty cb [] = 0" for ty
    by (simp add: count_events_def)
  show ?thesis
    by (simp add: usbmuxd_events_subscribe_def usbmuxd_events_unsubscribe_def Let_def
        count_events_map nil)
qed

theorem replay_counts_witness:
  "count_events UE_DEVICE_ADD 7
     (fst (snd (usbmuxd_events_subscribe 7 [] (listed_state\<lparr> watching := True \<rparr>)))) = 1
   \<and> count_events UE_DEVICE_REMOVE 7
       (fst (snd (usbmuxd_events_unsubscribe 0
          (snd (snd (usbmuxd_events_subscribe 7 [] (listed_state\<lparr> watching := True \<rparr>))))))) = 1"
proof -
  let ?s = "listed_state\<lparr> watching := True \<rparr>"
  let ?t = "snd (snd (usbmuxd_events_subscribe 7 [] ?s))"
  have t: "?t = listed_state\<lparr> watching := True, next_object := 1,
                  listener_map := [(0, \<lparr> callback = 7, user_data = [] \<rparr>)] \<rparr>"
    by (simp add: usbmuxd_events_subscribe_def listed_state_eq initial_state_def)
  have reg: "map_of (listener_map ?t) 0 = Some \<lparr> callback = 7, user_data = [] \<rparr>"
    unfolding t by simp
  have len: "length (devices ?s) = 1" "length (devices ?t) = 1" "watching ?s"
    unfolding t by (simp_all add: listed_state_eq)
  from replay_counts [of 7 "[]" ?s ?t 0] reg len show ?thesis
    by simp
qed

text \<open>
  The claim C3 as stated fails: after a listing that found one device, with no listen
  session, a subscriber gets no \<^verbatim>\<open>UE_DEVICE_ADD\<close> at its subscribe call and one
  \<^verbatim>\<open>UE_DEVICE_REMOVE\<close> at its unsubscribe call.
\<close>

theorem replay_symmetry_counterexample:
  "count_events UE_DEVICE_ADD 7 (fst (snd (usbmuxd_events_subscribe 7 [] listed_state))) = 0
   \<and> count_events UE_DEVICE_REMOVE 7
       (fst (snd (usbmuxd_events_unsubscribe 0
          (snd (snd (usbmuxd_events_subscribe 7 [] listed_state)))))) = 1
   \<and> fst (usbmuxd_events_subscribe 7 [] listed_state) = Inr 0"
  by (simp add: usbmuxd_events_subscribe_def usbmuxd_events_unsubscribe_def
      listed_state_eq initial_state_def count_events_def)

text \<open>
  C4. \<^verbatim>\<open>_proto_version\<close> starts at 1. A call leaves it as it is or sets it to 0, so in
  every state reached from the initial one it is 1 or 0, and once it is 0 it is 0 after
  every further sequence of calls.
\<close>

theorem proto_version_only_downgrades:
  "proto_version initial_state = 1
   \<and> (proto_version (snd (call dfd op s)) = proto_version s
       \<or> proto_version (snd (call dfd op s)) = 0)
   \<and> (proto_version (snd (run dfd ops initial_state)) = 1
       \<or> proto_version (snd (run dfd ops initial_state)) = 0)
   \<and> (proto_version (snd (run dfd ops initial_state)) = 0 \<longrightarrow>
        proto_version (snd (run dfd (ops @ ops') initial_state)) = 0)"
proof -
  have a: "proto_version initial_state = 1"
    by (simp add: initial_state_def)
  have b: "proto_version (snd (call dfd op s)) = proto_version s
           \<or> proto_version (snd (call dfd op s)) = 0"
    using call_version [of dfd op s] by (cases "call dfd op s") simp
  obtain rs s1 where r: "run dfd ops initial_state = (rs, s1)"
    by (cases "run dfd ops initial_state")
  obtain rs' s2 where r': "run dfd ops' s1 = (rs', s2)"
    by (cases "run dfd ops' s1")
  have c: "proto_version s1 = 1 \<or> proto_version s1 = 0"
    using run_version_range [OF r] a by simp
  have d: "proto_version s1 = 0 \<longrightarrow> proto_version s2 = 0"
    using run_version_sticky [OF r'] by simp
  show ?thesis
    using a b c d by (simp add: run_append r r')
qed

theorem proto_version_only_downgrades_witness:
  "proto_version (snd (run no_device_info_from_data
       [Call_get_device_list [badversion_session, quiet_listen_session]] initial_state)) = 0
   \<and> proto_version (snd (run no_device_info_from_data
       ([Call_get_device_list [badversion_session, quiet_listen_session]]
        @ [Call_subscribe 7 [], Call_get_device_list [one_device_session]])
       initial_state)) = 0"
proof -
  have a: "proto_version (snd (run no_device_info_from_data
       [Call_get_device_list [badversion_session, quiet_listen_session]] initial_state)) = 0"
    using legacy_state_eq by (simp add: legacy_state_def)
  from proto_version_only_downgrades
         [of no_device_info_from_data _ _
             "[Call_get_device_list [badversion_session, quiet_listen_session]]"
             "[Call_subscribe 7 [], Call_get_device_list [one_device_session]]"] a
  show ?thesis by blast
qed


subsection \<open>The header on the wire\<close>

lemma be32_sum:
  "(v div 2 ^ 24 mod 256) * 2 ^ 24 + (v div 2 ^ 16 mod 256) * 2 ^ 16
     + (v div 2 ^ 8 mod 256) * 2 ^ 8 + v mod 256 = (v::nat) mod 2 ^ 32"
proof -
  have a: "v mod 2 ^ 32 = 2 ^ 24 * (v div 2 ^ 24 mod 256) + v mod 2 ^ 24"
    using mod_mult2_eq [of v "2 ^ 24" 256] by simp
  have b: "v mod 2 ^ 24 = 2 ^ 16 * (v div 2 ^ 16 mod 256) + v mod 2 ^ 16"
    using mod_mult2_eq [of v "2 ^ 16" 256] by simp
  have c: "v mod 2 ^ 16 = 2 ^ 8 * (v div 2 ^ 8 mod 256) + v mod 2 ^ 8"
    using mod_mult2_eq [of v "2 ^ 8" 256] by simp
  show ?thesis
    unfolding a b c by simp
qed

lemma unat_byte: "unat (of_nat (x mod 256) :: byte) = x mod 256"
  by (simp add: unat_of_nat)


lemma setUint32_get:
  assumes "off + 4 \<le> length buf"
  shows "\<exists>buf'. setUint32 buf off v = Some buf' \<and> length buf' = length buf
       \<and> getUint32 buf' off = Some (v mod 2 ^ 32)
       \<and> (\<forall>o'. o' + 4 \<le> off \<or> off + 4 \<le> o' \<longrightarrow> getUint32 buf' o' = getUint32 buf o')"
proof -
  let ?b = "buf[off := of_nat (v div 2 ^ 24 mod 256),
                off + 1 := of_nat (v div 2 ^ 16 mod 256),
                off + 2 := of_nat (v div 2 ^ 8 mod 256),
                off + 3 := of_nat (v mod 256)]"
  have s: "setUint32 buf off v = Some ?b"
    using assms by (simp add: setUint32_def)
  have l: "length ?b = length buf" by simp
  have n0: "?b ! off = of_nat (v div 2 ^ 24 mod 256)"
    and n1: "?b ! (off + 1) = of_nat (v div 2 ^ 16 mod 256)"
    and n2: "?b ! (off + 2) = of_nat (v div 2 ^ 8 mod 256)"
    and n3: "?b ! (off + 3) = of_nat (v mod 256)"
    using assms by (simp_all add: nth_list_update)
  have g: "getUint32 ?b off = Some (v mod 2 ^ 32)"
    unfolding getUint32_def l n0 n1 n2 n3 unat_byte
    using assms be32_sum [of v] by simp
  have o: "getUint32 ?b o' = getUint32 buf o'" if "o' + 4 \<le> off \<or> off + 4 \<le> o'" for o'
    using that unfolding getUint32_def l by (auto simp: nth_list_update)
  from s l g o show ?thesis by blast
qed


lemma header_bytes:
  "\<exists>hd. Option.bind (setUint32 (replicate 16 0) 0 a) (\<lambda>b0.
           Option.bind (setUint32 b0 4 b) (\<lambda>b1.
           Option.bind (setUint32 b1 8 c) (\<lambda>b2.
           setUint32 b2 12 d))) = Some hd
        \<and> length hd = 16
        \<and> getUint32 hd 0 = Some (a mod 2 ^ 32) \<and> getUint32 hd 4 = Some (b mod 2 ^ 32)
        \<and> getUint32 hd 8 = Some (c mod 2 ^ 32) \<and> getUint32 hd 12 = Some (d mod 2 ^ 32)"
proof -
  obtain b0 where b0: "setUint32 (replicate 16 0) 0 a = Some b0" "length b0 = 16"
      "getUint32 b0 0 = Some (a mod 2 ^ 32)"
    using setUint32_get [of 0 "replicate 16 0" a] by auto
  obtain b1 where b1: "setUint32 b0 4 b = Some b1" "length b1 = 16"
      "getUint32 b1 4 = Some (b mod 2 ^ 32)" "getUint32 b1 0 = getUint32 b0 0"
    using setUint32_get [of 4 b0 b] b0(2) by auto
  obtain b2 where b2: "setUint32 b1 8 c = Some b2" "length b2 = 16"
      "getUint32 b2 8 = Some (c mod 2 ^ 32)" "getUint32 b2 0 = getUint32 b1 0"
      "getUint32 b2 4 = getUint32 b1 4"
    using setUint32_get [of 8 b1 c] b1(2) by auto
  obtain b3 where b3: "setUint32 b2 12 d = Some b3" "length b3 = 16"
      "getUint32 b3 12 = Some (d mod 2 ^ 32)" "getUint32 b3 0 = getUint32 b2 0"
      "getUint32 b3 4 = getUint32 b2 4" "getUint32 b3 8 = getUint32 b2 8"
    using setUint32_get [of 12 b2 d] b2(2) by auto
  show ?thesis
    using b0 b1 b2 b3 by simp
qed

lemma replicate_16: "replicate 16 x = [x, x, x, x, x, x, x, x, x, x, x, x, x, x, x, x]"
  by (simp add: numeral_eq_Suc)

text \<open>
  C8, as the code has it. The first chunk that \<^verbatim>\<open>socket_send_data\<close> hands to the socket
  is a header of 16 bytes: four unsigned 32-bit fields, each big-endian, in the order
  length, version, message type, tag. Each field holds its value modulo \<open>2 ^ 32\<close>: the
  length field is 16 plus the number of payload bytes, the version field is
  \<^verbatim>\<open>_proto_version\<close>, the message field is the message type and the tag field is the
  tag, exactly so for every length, version and tag below \<open>2 ^ 32\<close>. When the write
  of the header is reported as sent, the bytes handed to the socket are the header
  followed by the payload, unchanged. When it is reported as not sent, the header is all
  that is handed to the socket and the call resolves with \<^verbatim>\<open>-EPERM\<close>; when the write
  never completes, the header is all that is handed to the socket too.
\<close>

theorem socket_send_data_frame:
  "\<exists>header_data rest.
      snd (socket_send_data msg tg data sent answered s) = Write header_data # rest
    \<and> length header_data = 16
    \<and> getUint32 header_data 0
        = Some ((16 + length (case data of None \<Rightarrow> [] | Some d \<Rightarrow> d)) mod 2 ^ 32)
    \<and> getUint32 header_data 4 = Some (proto_version s mod 2 ^ 32)
    \<and> getUint32 header_data 8 = Some (msgtype_code msg)
    \<and> getUint32 header_data 12 = Some (tg mod 2 ^ 32)
    \<and> (16 + length (case data of None \<Rightarrow> [] | Some d \<Rightarrow> d) < 2 ^ 32 \<longrightarrow>
          getUint32 header_data 0
            = Some (16 + length (case data of None \<Rightarrow> [] | Some d \<Rightarrow> d)))
    \<and> (proto_version s < 2 ^ 32 \<longrightarrow> getUint32 header_data 4 = Some (proto_version s))
    \<and> (tg < 2 ^ 32 \<longrightarrow> getUint32 header_data 12 = Some tg)
    \<and> (sent \<noteq> [] \<and> hd sent \<longrightarrow>
          written (snd (socket_send_data msg tg data sent answered s))
            = header_data @ (case data of None \<Rightarrow> [] | Some d \<Rightarrow> d))
    \<and> (sent \<noteq> [] \<and> \<not> hd sent \<longrightarrow>
          socket_send_data msg tg data sent answered s
            = (Resolved (SR_number (Num (- errno_value EPERM))), [Write header_data]))
    \<and> (sent = [] \<longrightarrow>
          socket_send_data msg tg data sent answered s = (Pending, [Write header_data]))"
proof -
  let ?n = "case data of Some d \<Rightarrow> length d | None \<Rightarrow> 0"
  have n: "length (case data of None \<Rightarrow> [] | Some d \<Rightarrow> d) = ?n"
    by (cases data) simp_all
  obtain hd where h: "Option.bind (setUint32 (replicate 16 0) 0 (16 + ?n)) (\<lambda>b0.
           Option.bind (setUint32 b0 4 (proto_version s)) (\<lambda>b1.
           Option.bind (setUint32 b1 8 (msgtype_code msg)) (\<lambda>b2.
           setUint32 b2 12 tg))) = Some hd"
    and l: "length hd = 16"
    and g: "getUint32 hd 0 = Some ((16 + ?n) mod 2 ^ 32)"
       "getUint32 hd 4 = Some (proto_version s mod 2 ^ 32)"
       "getUint32 hd 8 = Some (msgtype_code msg mod 2 ^ 32)"
       "getUint32 hd 12 = Some (tg mod 2 ^ 32)"
    using header_bytes [of "16 + ?n" "proto_version s" "msgtype_code msg" tg] by blast
  have m: "msgtype_code msg mod 2 ^ 32 = msgtype_code msg"
    by (cases msg) simp_all
  have e: "\<exists>rest. snd (socket_send_data msg tg data sent answered s) = Write hd # rest
        \<and> (sent \<noteq> [] \<and> List.hd sent \<longrightarrow>
             written (snd (socket_send_data msg tg data sent answered s))
               = hd @ (case data of None \<Rightarrow> [] | Some d \<Rightarrow> d))"
    using h
    by (auto simp: socket_send_data_def Let_def on_data_received_def
             split: list.splits option.splits)
  have f: "sent \<noteq> [] \<and> \<not> List.hd sent \<longrightarrow>
             socket_send_data msg tg data sent answered s
               = (Resolved (SR_number (Num (- errno_value EPERM))), [Write hd])"
    using h by (auto simp: socket_send_data_def Let_def split: list.splits)
  have p: "sent = [] \<longrightarrow>
             socket_send_data msg tg data sent answered s = (Pending, [Write hd])"
    using h by (auto simp: socket_send_data_def Let_def)
  show ?thesis
    using e f p l g m unfolding n by auto
qed

theorem socket_send_data_frame_witness:
  "(\<exists>header_data.
      written (snd (socket_send_data MESSAGE_PLIST 42 (Some [1, 2, 3, 4]) [True, True] True
                      initial_state))
        = header_data @ [1, 2, 3, 4]
    \<and> length header_data = 16
    \<and> getUint32 header_data 0 = Some 20 \<and> getUint32 header_data 4 = Some 1
    \<and> getUint32 header_data 8 = Some 8 \<and> getUint32 header_data 12 = Some 42)
   \<and> (\<exists>header_data.
        socket_send_data MESSAGE_PLIST 42 (Some [1, 2, 3, 4]) [False] True initial_state
          = (Resolved (SR_number (Num (- 1))), [Write header_data])
      \<and> length header_data = 16)
   \<and> (\<exists>header_data.
        socket_send_data MESSAGE_PLIST 42 (Some [1, 2, 3, 4]) [] True initial_state
          = (Pending, [Write header_data])
      \<and> length header_data = 16)"
proof -
  from socket_send_data_frame
         [of MESSAGE_PLIST 42 "Some [1, 2, 3, 4]" "[True, True]" True initial_state]
  obtain header_data where
    "length header_data = 16"
    "getUint32 header_data 8 = Some (msgtype_code MESSAGE_PLIST)"
    "16 + length (case Some [1, 2, 3, 4 :: byte] of None \<Rightarrow> [] | Some d \<Rightarrow> d) < 2 ^ 32 \<longrightarrow>
       getUint32 header_data 0
         = Some (16 + length (case Some [1, 2, 3, 4 :: byte] of None \<Rightarrow> [] | Some d \<Rightarrow> d))"
    "proto_version initial_state < 2 ^ 32 \<longrightarrow>
       getUint32 header_data 4 = Some (proto_version initial_state)"
    "(42::nat) < 2 ^ 32 \<longrightarrow> getUint32 header_data 12 = Some 42"
    "[True, True] \<noteq> [] \<and> hd [True, True] \<longrightarrow>
       written (snd (socket_send_data MESSAGE_PLIST 42 (Some [1, 2, 3, 4]) [True, True] True
                       initial_state))
         = header_data @ (case Some [1, 2, 3, 4] of None \<Rightarrow> [] | Some d \<Rightarrow> d)"
    by blast
  then have a: "\<exists>header_data.
      written (snd (socket_send_data MESSAGE_PLIST 42 (Some [1, 2, 3, 4]) [True, True] True
                      initial_state))
        = header_data @ [1, 2, 3, 4]
    \<and> length header_data = 16
    \<and> getUint32 header_data 0 = Some 20 \<and> getUint32 header_data 4 = Some 1
    \<and> getUint32 header_data 8 = Some 8 \<and> getUint32 header_data 12 = Some 42"
    by (intro exI [of _ header_data]) (simp add: initial_state_def)
  from socket_send_data_frame
         [of MESSAGE_PLIST 42 "Some [1, 2, 3, 4]" "[False]" True initial_state]
  obtain h1 where
    "length h1 = 16"
    "[False] \<noteq> [] \<and> \<not> hd [False] \<longrightarrow>
       socket_send_data MESSAGE_PLIST 42 (Some [1, 2, 3, 4]) [False] True initial_state
         = (Resolved (SR_number (Num (- errno_value EPERM))), [Write h1])"
    by blast
  then have b: "\<exists>header_data.
        socket_send_data MESSAGE_PLIST 42 (Some [1, 2, 3, 4]) [False] True initial_state
          = (Resolved (SR_number (Num (- 1))), [Write header_data])
      \<and> length header_data = 16"
    by (intro exI [of _ h1]) simp
  from socket_send_data_frame
         [of MESSAGE_PLIST 42 "Some [1, 2, 3, 4]" "[]" True initial_state]
  obtain h2 where
    "length h2 = 16"
    "([]::bool list) = [] \<longrightarrow>
       socket_send_data MESSAGE_PLIST 42 (Some [1, 2, 3, 4]) [] True initial_state
         = (Pending, [Write h2])"
    by blast
  then have c: "\<exists>header_data.
        socket_send_data MESSAGE_PLIST 42 (Some [1, 2, 3, 4]) [] True initial_state
          = (Pending, [Write header_data])
      \<and> length header_data = 16"
    by (intro exI [of _ h2]) simp
  from a b c show ?thesis by blast
qed

text \<open>
  The claim C8 as stated fails in two ways. A request with a payload of four bytes whose
  header write is reported as not sent: the header announces 20 bytes, the 16 bytes of
  the header are all that is handed to the socket, and no payload follows. A request
  with the tag \<open>2 ^ 32\<close>: the tag field holds 0.
\<close>

theorem socket_send_data_frame_counterexample:
  "socket_send_data MESSAGE_PLIST 42 (Some [1, 2, 3, 4]) [False] True initial_state
     = (Resolved (SR_number (Num (- 1))),
        [Write [0, 0, 0, 20, 0, 0, 0, 1, 0, 0, 0, 8, 0, 0, 0, 42]])
   \<and> getUint32 [0, 0, 0, 20, 0, 0, 0, 1, 0, 0, 0, 8, 0, 0, 0, 42] 0 = Some 20
   \<and> written [Write [0, 0, 0, 20, 0, 0, 0, 1, 0, 0, 0, 8, 0, 0, 0, 42]]
       \<noteq> [0, 0, 0, 20, 0, 0, 0, 1, 0, 0, 0, 8, 0, 0, 0, 42] @ [1, 2, 3, 4]
   \<and> socket_send_data MESSAGE_LISTEN 4294967296 None [True] True initial_state
       = (Resolved SR_void, [Write [0, 0, 0, 16, 0, 0, 0, 1, 0, 0, 0, 3, 0, 0, 0, 0]])
   \<and> getUint32 [0, 0, 0, 16, 0, 0, 0, 1, 0, 0, 0, 3, 0, 0, 0, 0] 12 = Some 0"
  by (simp add: socket_send_data_def setUint32_def getUint32_def initial_state_def
      replicate_16 on_data_received_def)

subsection \<open>Retries of the listing\<close>

lemma push_device_infos_None:
  "push_device_infos recs acc = None \<longleftrightarrow> (\<exists>r \<in> set recs. device_info_from_plist r = None)"
  by (induction recs arbitrary: acc) (auto split: option.splits)

text \<open>
  A \<^verbatim>\<open>RESULT_BADVERSION\<close> answer to \<^verbatim>\<open>ListDevices\<close> under version 1: the version
  becomes 0, the socket is destroyed and the listing runs again on the next connection.
\<close>

lemma badversion_downgrades_and_retries:
  assumes "proto_version s = 1" and "on_connect d = SocketConnected"
    and "on_list_devices d = LD_number (Num 6)"
  shows "connect_and_list_devices dfd (d # ds) s =
           (case connect_and_list_devices dfd ds
                   (s\<lparr> use_tag := Suc (use_tag s), proto_version := 0 \<rparr>) of
              (r, actions, s') \<Rightarrow>
                (r, [Connect, ListDevices (Suc (use_tag s)) 1, Destroy] @ actions, s'))"
  using assms by (simp add: Let_def isNumber_num_def split: prod.splits)

text \<open>Under a version other than 1 a listing opens one connection and asks no retry.\<close>

lemma legacy_listing_connects_once:
  assumes "proto_version s \<noteq> 1" and "connect_and_list_devices dfd ds s = (r, actions, s')"
  shows "count_list actions Connect = 1"
proof (cases ds)
  case Nil
  with assms show ?thesis by auto
next
  case (Cons d ds')
  with assms show ?thesis
    by (auto simp: Let_def recursively_get_device_list_def
             split: connect_result.splits option.splits if_splits prod.splits list.splits
                    receive_result.splits)
qed

text \<open>
  Any other numeric answer to \<^verbatim>\<open>ListDevices\<close> under version 1: the socket is destroyed
  and the listing runs again, the version still 1.
\<close>

lemma badcommand_retries:
  assumes "proto_version s = 1"
  shows "connect_and_list_devices dfd (badcommand_session # ds) s =
           (case connect_and_list_devices dfd ds (s\<lparr> use_tag := Suc (use_tag s) \<rparr>) of
              (r, actions, s') \<Rightarrow>
                (r, [Connect, ListDevices (Suc (use_tag s)) 1, Destroy] @ actions, s'))"
  using assms by (simp add: Let_def isNumber_num_def badcommand_session_def split: prod.splits)

lemma badcommand_sessions_then:
  assumes "proto_version s = 1"
    and "connect_and_list_devices dfd ds (s\<lparr> use_tag := use_tag s + n \<rparr>) = (r, actions, s')"
  shows "\<exists>actions'. connect_and_list_devices dfd (replicate n badcommand_session @ ds) s
                      = (r, actions', s')
           \<and> count_list actions' Connect = n + count_list actions Connect"
  using assms
proof (induction n arbitrary: s)
  case 0
  then show ?case by simp
next
  case (Suc n)
  let ?s1 = "s\<lparr> use_tag := Suc (use_tag s) \<rparr>"
  have v: "proto_version ?s1 = 1" using Suc.prems(1) by simp
  have e: "?s1\<lparr> use_tag := use_tag ?s1 + n \<rparr> = s\<lparr> use_tag := use_tag s + Suc n \<rparr>"
    by simp
  from Suc.IH [OF v] Suc.prems(2) e
  obtain actions' where
    a: "connect_and_list_devices dfd (replicate n badcommand_session @ ds) ?s1 = (r, actions', s')"
    and c: "count_list actions' Connect = n + count_list actions Connect"
    by auto
  show ?case
    using badcommand_retries [OF Suc.prems(1), of dfd "replicate n badcommand_session @ ds"] a c
    by simp
qed

text \<open>
  C1. Under version 1 a result code other than \<^verbatim>\<open>RESULT_BADVERSION\<close> is not returned
  to the caller. Whatever the number of connections on which the daemon answers
  \<^verbatim>\<open>ListDevices\<close> with \<^verbatim>\<open>RESULT_BADCOMMAND\<close>, the listing is run again each time, the
  version still 1: followed by a connection that answers with an empty device list, the
  call resolves with that list after one more connection; followed by nothing, the
  promise stays pending.
\<close>

theorem list_devices_failure_is_retried:
  "fst (usbmuxd_get_device_list dfd (replicate n badcommand_session @ [no_device_session])
          initial_state) = Resolved (Inr [])
   \<and> count_list (fst (snd (usbmuxd_get_device_list dfd
                              (replicate n badcommand_session @ [no_device_session])
                              initial_state))) Connect = n + 1
   \<and> proto_version (snd (snd (usbmuxd_get_device_list dfd
                              (replicate n badcommand_session @ [no_device_session])
                              initial_state))) = 1
   \<and> fst (usbmuxd_get_device_list dfd (replicate n badcommand_session) initial_state)
       = Pending"
proof -
  have v: "proto_version initial_state = 1" by (simp add: initial_state_def)
  let ?s = "initial_state\<lparr> use_tag := use_tag initial_state + n \<rparr>"
  have a: "connect_and_list_devices dfd [no_device_session] ?s
             = (Resolved (Inr []), [Connect, ListDevices (Suc n) 1, Destroy],
                ?s\<lparr> use_tag := Suc n, devices := [] \<rparr>)"
    by (simp add: no_device_session_def initial_state_def)
  have b: "connect_and_list_devices dfd [] ?s = (Pending, [Connect], ?s)"
    by simp
  from badcommand_sessions_then [OF v a] badcommand_sessions_then [OF v b]
  show ?thesis
    by (auto simp: usbmuxd_get_device_list_def initial_state_def)
qed

text \<open>
  On the listen path a call resolves only when the first \<^verbatim>\<open>socket_receive_data\<close>
  gives a number: with the empty list, which also replaces the directory.
\<close>

lemma quiet_listen_resolves_empty:
  assumes "proto_version s \<noteq> 1" and "on_connect d = SocketConnected"
    and "on_listen d = None" and "on_receive d = RD_number n # rest" and "n \<noteq> NaN"
  shows "usbmuxd_get_device_list dfd (d # ds) s
           = (Resolved (Inr []),
              [Connect, Listen (Suc (Suc (use_tag s))) (proto_version s), Receive 100, Destroy],
              s\<lparr> use_tag := Suc (Suc (use_tag s)), devices := [] \<rparr>)"
  using assms
  by (simp add: usbmuxd_get_device_list_def Let_def recursively_get_device_list_def
      isNumber_num_def)

text \<open>
  C2. Under version 0 the listing does not drain the frames. A listing has found the
  USB device; in a later listing the daemon answers \<^verbatim>\<open>RESULT_BADVERSION\<close>, and on the listen session that
  follows one \<^verbatim>\<open>MESSAGE_DEVICE_ADD\<close> frame arrives and then nothing for 100 ms. The
  promise of that listing stays pending after the frame, and the announced device has
  been appended to the directory, which still holds the device of the earlier listing.
\<close>

theorem legacy_listing_stops_after_first_frame:
  "run other_device_info_from_data
       [Call_get_device_list [one_device_session],
        Call_get_device_list [badversion_session, device_add_session]] initial_state
     = ([Listed (Resolved (Inr [usb_device])) [Connect, ListDevices 1 1, Destroy],
         Listed Pending [Connect, ListDevices 2 1, Destroy, Connect, Listen 4 0, Receive 100]],
        \<lparr> watching = False, use_tag = 4, proto_version = 0, listener_map = [],
          devices = [usb_device, other_device], next_object = 0 \<rparr>)"
  by (simp add: usbmuxd_get_device_list_def one_device_session_def badversion_session_def
      device_add_session_def initial_state_def usb_record_def device_info_from_plist_def
      usb_device_def isNumber_num_def recursively_get_device_list_def
      other_device_info_from_data_def)

text \<open>
  C5, as the code has it. Under version 1, when a record of the \<^verbatim>\<open>DeviceList\<close> array
  gives no device, the call resolves with \<^verbatim>\<open>-EPERM\<close>, returns no list and leaves the
  directory as it was. On the listen path, a \<^verbatim>\<open>MESSAGE_DEVICE_ADD\<close> frame whose record
  gives no device raises no error and adds nothing to the directory.
\<close>

theorem malformed_record_handling:
  "(proto_version s = 1 \<and> on_connect d = SocketConnected
      \<and> on_list_devices d = LD_plist obj \<and> map_of obj ''DeviceList'' = Some (PArray recs)
      \<and> (\<exists>r \<in> set recs. device_info_from_plist r = None)
     \<longrightarrow> usbmuxd_get_device_list dfd (d # ds) s
           = (Resolved (Inl (Num (- errno_value EPERM))),
              [Connect, ListDevices (Suc (use_tag s)) 1, Destroy],
              s\<lparr> use_tag := Suc (use_tag s) \<rparr>))
   \<and> (proto_version s \<noteq> 1 \<and> on_connect d = SocketConnected \<and> on_listen d = None
      \<and> on_receive d = RD_frame hdr body # rest
      \<and> message hdr = msgtype_code MESSAGE_DEVICE_ADD \<and> dfd body = None
     \<longrightarrow> (\<exists>r actions s'. usbmuxd_get_device_list dfd (d # ds) s = (r, actions, s')
            \<and> (\<forall>e. r \<noteq> Resolved (Inl e)) \<and> devices s' = devices s))"
proof -
  have a: "push_device_infos recs [] = None" if "\<exists>r \<in> set recs. device_info_from_plist r = None"
    using that by (simp add: push_device_infos_None)
  show ?thesis
    using a
    by (auto simp: usbmuxd_get_device_list_def Let_def recursively_get_device_list_def)
qed

theorem malformed_record_handling_witness:
  "usbmuxd_get_device_list no_device_info_from_data [malformed_record_session] listed_state
     = (Resolved (Inl (Num (- 1))), [Connect, ListDevices 2 1, Destroy],
        listed_state\<lparr> use_tag := 2 \<rparr>)
   \<and> devices (snd (snd (usbmuxd_get_device_list no_device_info_from_data
                          [device_add_session] legacy_state))) = []"
proof -
  have n: "device_info_from_plist record_without_serial = None"
    by (simp add: device_info_from_plist_def record_without_serial_def)
  note T = malformed_record_handling
             [of listed_state malformed_record_session
                 "[(''DeviceList'', PArray [usb_record, record_without_serial])]"
                 "[usb_record, record_without_serial]" no_device_info_from_data "[]"]
  have a: "usbmuxd_get_device_list no_device_info_from_data [malformed_record_session]
             listed_state
           = (Resolved (Inl (Num (- 1))), [Connect, ListDevices 2 1, Destroy],
              listed_state\<lparr> use_tag := 2 \<rparr>)"
    using T n by (simp add: listed_state_eq initial_state_def malformed_record_session_def)
  note U = malformed_record_handling
             [of legacy_state device_add_session _ _ no_device_info_from_data "[]"
                 "\<lparr> length_h = 16, version = 0, message = 4, tag = 0 \<rparr>" "[]"
                 "[RD_number (Num (- 1))]"]
  have b: "devices (snd (snd (usbmuxd_get_device_list no_device_info_from_data
                          [device_add_session] legacy_state))) = []"
    using U by (auto simp: legacy_state_eq initial_state_def device_add_session_def
        no_device_info_from_data_def)
  from a b show ?thesis by blast
qed

text \<open>
  The claim C5 as stated fails on the listen path: the record of the
  \<^verbatim>\<open>MESSAGE_DEVICE_ADD\<close> frame gives no device, and the call does not end with an error.
\<close>

theorem malformed_frame_counterexample:
  "fst (usbmuxd_get_device_list no_device_info_from_data [device_add_session] legacy_state)
     = Pending"
  by (simp add: usbmuxd_get_device_list_def legacy_state_eq initial_state_def
      device_add_session_def no_device_info_from_data_def recursively_get_device_list_def)

text \<open>
  C9. The document that \<^verbatim>\<open>create_plist_message\<close> writes for \<^verbatim>\<open>ListDevices\<close> holds no
  mapping: it has the three keys and their strings as six elements directly
  under the root \<^verbatim>\<open>plist\<close> element; there is no \<^verbatim>\<open>dict\<close> element, the element that
  holds a mapping in a property list. The request goes out with message type 8.
\<close>

theorem create_plist_message_document_has_no_dict:
  "create_plist_message_document ''ListDevices''
     = Element ''plist''
         [Element ''key'' [Text ''ClientVersionString''], Element ''string'' [Text ''libusbmuxd''],
          Element ''key'' [Text ''MessageType''], Element ''string'' [Text ''ListDevices''],
          Element ''key'' [Text ''kLibUSBMuxVersion''], Element ''string'' [Text ''3'']]
   \<and> map element_name (child_nodes (create_plist_message_document ''ListDevices''))
       = [''key'', ''string'', ''key'', ''string'', ''key'', ''string'']
   \<and> ''dict'' \<notin> set (map element_name
                         (child_nodes (create_plist_message_document ''ListDevices'')))
   \<and> socket_list_devices parse build tg sent answered s
       = socket_send_data MESSAGE_PLIST tg
           (Some (build (parse (create_plist_message_document ''ListDevices''))))
           sent answered s
   \<and> msgtype_code MESSAGE_PLIST = 8"
  by (simp add: create_plist_message_document_def PACKAGE_def PLIST_LIBUSBMUX_VERSION_def
      socket_list_devices_def socket_send_plist_def create_plist_message_def)

end
